theory Spec2Isabelle
  imports Main
begin

section \<open>The config loader of buncargo (src/loader.ts)\<close>

text \<open>
  The module has one piece of mutable state, the module variable \<open>cachedEnv\<close>, and
  talks to its host through four calls: \<open>existsSync\<close> of node:fs, \<open>process.cwd()\<close>,
  the dynamic \<open>import()\<close> and the factory \<open>createDevEnvironment\<close> of ./environment.
  The embedding passes the state explicitly, returns thrown errors as values, and
  records every host call in a ghost log, so that "performs no filesystem access" is
  a statement about the log.
\<close>

subsection \<open>node:path, POSIX flavour\<close>

text \<open>
  \<open>dirname\<close> and \<open>join\<close> are imported from node:path; they are pure string functions.
  They are modelled after the POSIX implementation (the separator is \<open>/\<close>; the
  Windows flavour, with drive letters and two separators, is not covered). A string
  is a list of characters; both functions only compare characters with the
  separator and the dot.

  \<open>dirname\<close>: the empty path gives \<open>.\<close>. Otherwise the path is scanned from its last
  character down to index 1; trailing separators are skipped (\<open>matchedSlash\<close>), and the
  first separator met after a non-separator is where the result ends. No such
  separator: \<open>/\<close> for a rooted path and \<open>.\<close> for the others. A rooted path that ends at
  index 1 gives \<open>//\<close>.

  \<open>dirname_scan\<close> runs over the characters at indices \<open>length path - 1\<close> down to \<open>1\<close>,
  handed over as a list in that order; the index of the head of \<open>c # cs\<close> is
  \<open>Suc (length cs)\<close>.
\<close>

fun dirname_scan :: "string \<Rightarrow> bool \<Rightarrow> nat option" where
  "dirname_scan [] matchedSlash = None"
| "dirname_scan (c # cs) matchedSlash =
     (if c = CHR ''/'' then
        (if \<not> matchedSlash then Some (Suc (length cs)) else dirname_scan cs matchedSlash)
      else dirname_scan cs False)"

definition dirname :: "string \<Rightarrow> string" where
  "dirname path =
     (if length path = 0 then ''.''
      else
        let hasRoot = (hd path = CHR ''/'') in
        case dirname_scan (rev (tl path)) True of
          None \<Rightarrow> if hasRoot then ''/'' else ''.''
        | Some e \<Rightarrow> if hasRoot \<and> e = 1 then ''//'' else take e path)"

text \<open>
  \<open>join\<close> glues its non-empty arguments with \<open>/\<close> and normalizes the result:
  empty and \<open>.\<close> segments vanish, \<open>..\<close> removes the segment before it (and is kept in
  front of a relative path that has nothing left to remove), a trailing separator
  is kept, and an empty result is \<open>.\<close>.
\<close>

fun splitPath :: "string \<Rightarrow> string list" where
  "splitPath [] = [[]]"
| "splitPath (c # cs) =
     (if c = CHR ''/'' then [] # splitPath cs
      else (case splitPath cs of
              [] \<Rightarrow> [[c]]
            | seg # segs \<Rightarrow> (c # seg) # segs))"

fun resolveSegments :: "bool \<Rightarrow> string list \<Rightarrow> string list \<Rightarrow> string list" where
  "resolveSegments allowAboveRoot res [] = rev res"
| "resolveSegments allowAboveRoot res (seg # segs) =
     (if seg = [] \<or> seg = ''.'' then resolveSegments allowAboveRoot res segs
      else if seg = ''..'' then
        (case res of
           [] \<Rightarrow> resolveSegments allowAboveRoot (if allowAboveRoot then [''..''] else []) segs
         | lastSeg # below \<Rightarrow>
             if lastSeg = ''..''
             then resolveSegments allowAboveRoot (if allowAboveRoot then ''..'' # res else res) segs
             else resolveSegments allowAboveRoot below segs)
      else resolveSegments allowAboveRoot (seg # res) segs)"

fun joinSegments :: "string list \<Rightarrow> string" where
  "joinSegments [] = []"
| "joinSegments [seg] = seg"
| "joinSegments (seg # segs) = seg @ ''/'' @ joinSegments segs"

definition normalizeString :: "string \<Rightarrow> bool \<Rightarrow> string" where
  "normalizeString path allowAboveRoot =
     joinSegments (resolveSegments allowAboveRoot [] (splitPath path))"

definition normalize :: "string \<Rightarrow> string" where
  "normalize path =
     (if length path = 0 then ''.''
      else
        let isAbsolute = (hd path = CHR ''/'');
            trailingSeparator = (last path = CHR ''/'');
            p = normalizeString path (\<not> isAbsolute)
        in if length p = 0 then
             (if isAbsolute then ''/'' else if trailingSeparator then ''./'' else ''.'')
           else
             let p' = (if trailingSeparator then p @ ''/'' else p)
             in if isAbsolute then ''/'' @ p' else p')"

definition join :: "string \<Rightarrow> string \<Rightarrow> string" where
  "join a b =
     (if length a > 0 \<and> length b > 0 then normalize (a @ ''/'' @ b)
      else if length a > 0 then normalize a
      else if length b > 0 then normalize b
      else ''.'')"

subsection \<open>Values of the config module\<close>

text \<open>
  The default export of a config file is an arbitrary JavaScript value. The loader
  reads two properties of it through optional chaining and tests them for
  truthiness, nothing else. Numbers are kept as integers plus \<open>NaN\<close>: the only
  question asked of a number is whether it is zero or \<open>NaN\<close>. Objects (arrays and
  functions included) are lists of own properties.
\<close>

datatype js_value =
    JUndefined
  | JNull
  | JBoolean bool
  | JNumber int
  | JNaN
  | JString string
  | JObject "(string \<times> js_value) list"

text \<open>\<open>!v\<close> is \<open>\<not> truthy v\<close>: the falsy values are undefined, null, false, 0, NaN and \<open>""\<close>.\<close>

fun truthy :: "js_value \<Rightarrow> bool" where
  "truthy JUndefined = False"
| "truthy JNull = False"
| "truthy (JBoolean b) = b"
| "truthy (JNumber n) = (n \<noteq> 0)"
| "truthy JNaN = False"
| "truthy (JString s) = (s \<noteq> [])"
| "truthy (JObject props) = True"

text \<open>
  \<open>v?.name\<close>: undefined on null and undefined, the property of an object, and
  undefined on a primitive (the names the loader reads, \<open>projectPrefix\<close> and \<open>services\<close>,
  are no properties of the primitives' prototypes).
\<close>

fun optionalMember :: "js_value \<Rightarrow> string \<Rightarrow> js_value" where
  "optionalMember (JObject props) name =
     (case map_of props name of None \<Rightarrow> JUndefined | Some v \<Rightarrow> v)"
| "optionalMember v name = JUndefined"

text \<open>\<open>mod.default\<close> of a module namespace, given as the list of its exports.\<close>

definition moduleDefault :: "(string \<times> js_value) list \<Rightarrow> js_value" where
  "moduleDefault exports =
     (case map_of exports ''default'' of None \<Rightarrow> JUndefined | Some v \<Rightarrow> v)"

subsection \<open>Errors, host and state\<close>

text \<open>Every throw of the module is \<open>throw new Error(message)\<close>.\<close>

datatype error = Error string

text \<open>
  The host: the filesystem as \<open>existsSync\<close> sees it during one call (it answers
  false where it cannot tell, it does not throw), the working directory of the
  process, and what \<open>import(path)\<close> resolves to (the exports of the module) or
  rejects with.

  Modelled from the spec: \<open>createDevEnvironment\<close> of ./environment is not among the
  sources at hand. Section 6 of the specification describes it as a black-box
  transform of the validated raw config into the opaque environment, with no side
  effects; it is a parameter of the host, a function from the raw config to an
  environment of an arbitrary type \<open>'env\<close>. An environment is an object, hence truthy:
  \<open>cachedEnv &&\<close> and \<open>!cachedEnv\<close> are tests for null.
\<close>

record 'env host =
  existsSync :: "string \<Rightarrow> bool"
  processCwd :: string
  importModule :: "string \<Rightarrow> error + (string \<times> js_value) list"
  createDevEnvironment :: "js_value \<Rightarrow> 'env"

datatype event =
    ExistsSync string
  | ProcessCwd
  | Import string
  | CreateDevEnvironment js_value

text \<open>
  The state: the module variable \<open>cachedEnv\<close> (\<open>None\<close> is null) and the log of
  host calls made so far, oldest first.
\<close>

record 'env state =
  cachedEnv :: "'env option"
  hostCalls :: "event list"

definition callExistsSync :: "'env host \<Rightarrow> string \<Rightarrow> 'env state \<Rightarrow> bool \<times> 'env state" where
  "callExistsSync h path s = (existsSync h path, s\<lparr>hostCalls := hostCalls s @ [ExistsSync path]\<rparr>)"

definition callProcessCwd :: "'env host \<Rightarrow> 'env state \<Rightarrow> string \<times> 'env state" where
  "callProcessCwd h s = (processCwd h, s\<lparr>hostCalls := hostCalls s @ [ProcessCwd]\<rparr>)"

definition callImport ::
  "'env host \<Rightarrow> string \<Rightarrow> 'env state \<Rightarrow> (error + (string \<times> js_value) list) \<times> 'env state" where
  "callImport h path s = (importModule h path, s\<lparr>hostCalls := hostCalls s @ [Import path]\<rparr>)"

definition callCreateDevEnvironment :: "'env host \<Rightarrow> js_value \<Rightarrow> 'env state \<Rightarrow> 'env \<times> 'env state" where
  "callCreateDevEnvironment h config s =
     (createDevEnvironment h config, s\<lparr>hostCalls := hostCalls s @ [CreateDevEnvironment config]\<rparr>)"

subsection \<open>findConfigFile\<close>

definition CONFIG_FILES :: "string list" where
  "CONFIG_FILES = [''dev.config.ts'', ''dev.config.js'', ''dev-tools.config.ts'', ''dev-tools.config.js'']"

text \<open>The inner loop \<open>for (const file of CONFIG_FILES)\<close>, over the files still to test.\<close>

fun checkConfigFiles ::
  "'env host \<Rightarrow> string \<Rightarrow> string list \<Rightarrow> 'env state \<Rightarrow> string option \<times> 'env state" where
  "checkConfigFiles h currentDir [] s = (None, s)"
| "checkConfigFiles h currentDir (file # files) s =
     (let configPath = join currentDir file;
          (found, s') = callExistsSync h configPath s
      in if found then (Some configPath, s')
         else checkConfigFiles h currentDir files s')"

text \<open>
  The parent chain is finite: a step that does not stay where it is lowers this
  measure.
\<close>

definition walkMeasure :: "string \<Rightarrow> nat" where
  "walkMeasure dir = (if dir = ''.'' \<or> dir = ''/'' then 0 else Suc (length dir))"

lemma dirname_scan_bound:
  "dirname_scan cs m = Some e \<Longrightarrow> 1 \<le> e \<and> e \<le> length cs \<and> (m \<longrightarrow> e < length cs)"
proof (induction cs arbitrary: m)
  case Nil
  then show ?case by simp
next
  case (Cons c cs)
  show ?case
  proof (cases "c = CHR ''/''")
    case True
    with Cons.prems Cons.IH [of m] show ?thesis
      by (cases m) (auto split: if_splits)
  next
    case False
    with Cons.prems Cons.IH [of False] show ?thesis
      by auto
  qed
qed

lemma dirname_decreases:
  assumes "dirname dir \<noteq> dir"
  shows "walkMeasure (dirname dir) < walkMeasure dir"
proof (cases "dir = []")
  case True
  then show ?thesis by (simp add: dirname_def walkMeasure_def)
next
  case False
  then obtain c cs where dir: "dir = c # cs" by (cases dir) auto
  show ?thesis
  proof (cases "dirname_scan (rev cs) True")
    case None
    with dir assms show ?thesis
      by (auto simp: dirname_def walkMeasure_def split: if_splits)
  next
    case (Some e)
    from dirname_scan_bound [OF Some] have e: "1 \<le> e" "e < length cs" by auto
    with dir Some show ?thesis
      by (auto simp: dirname_def walkMeasure_def Let_def min_def)
  qed
qed

text \<open>The outer loop \<open>while (true)\<close>, with \<open>currentDir\<close> as its variable.\<close>

function findConfigFile :: "'env host \<Rightarrow> string \<Rightarrow> 'env state \<Rightarrow> string option \<times> 'env state" where
  "findConfigFile h currentDir s =
     (case checkConfigFiles h currentDir CONFIG_FILES s of
        (Some configPath, s') \<Rightarrow> (Some configPath, s')
      | (None, s') \<Rightarrow>
          let parentDir = dirname currentDir
          in if parentDir = currentDir then (None, s')
             else findConfigFile h parentDir s')"
  by pat_completeness auto
termination
  by (relation "measure (\<lambda>(h, currentDir, s). walkMeasure currentDir)")
     (auto intro: dirname_decreases)

declare findConfigFile.simps [simp del]

subsection \<open>loadDevEnv, getDevEnv, clearDevEnvCache\<close>

text \<open>
  The argument of \<open>loadDevEnv\<close> is optional, and so are both of its fields; \<open>None\<close> is
  undefined.
\<close>

record load_options =
  cwd :: "string option"
  reload :: "bool option"

text \<open>\<open>options?.reload\<close> as a condition: undefined and false are falsy.\<close>

definition reloadRequested :: "load_options option \<Rightarrow> bool" where
  "reloadRequested options =
     (case options of
        None \<Rightarrow> False
      | Some opts \<Rightarrow> (case reload opts of None \<Rightarrow> False | Some b \<Rightarrow> b))"

text \<open>\<open>options?.cwd\<close>; \<open>None\<close> is the undefined that \<open>??\<close> replaces.\<close>

definition optionsCwd :: "load_options option \<Rightarrow> string option" where
  "optionsCwd options = (case options of None \<Rightarrow> None | Some opts \<Rightarrow> cwd opts)"

definition invalidConfigMessage :: "string \<Rightarrow> string" where
  "invalidConfigMessage configPath =
     ''Invalid config in \"'' @ configPath @ ''\". Use defineDevConfig() and export as default.''"

definition noConfigMessage :: string where
  "noConfigMessage =
     ''No config file found. Create dev.config.ts with: export default defineDevConfig({ ... })''"

definition notLoadedMessage :: string where
  "notLoadedMessage = ''Dev environment not loaded. Call loadDevEnv() first.''"

text \<open>
  One call of \<open>loadDevEnv\<close>, run to completion with no other call in between at its
  \<open>await\<close>: the rejection of the returned promise is \<open>Inl\<close>. \<open>if (configPath)\<close> is a
  truthiness test of a string or null, so the empty string counts as no path. The
  assignment to \<open>cachedEnv\<close> is the last step of the successful branch.
\<close>

definition loadDevEnv ::
  "'env host \<Rightarrow> load_options option \<Rightarrow> 'env state \<Rightarrow> (error + 'env) \<times> 'env state" where
  "loadDevEnv h options s =
     (if cachedEnv s \<noteq> None \<and> \<not> reloadRequested options then (Inr (the (cachedEnv s)), s)
      else
        let (startDir, s1) =
              (case optionsCwd options of
                 Some dir \<Rightarrow> (dir, s)
               | None \<Rightarrow> callProcessCwd h s);
            (configPath, s2) = findConfigFile h startDir s1
        in case configPath of
             None \<Rightarrow> (Inl (Error noConfigMessage), s2)
           | Some path \<Rightarrow>
               if path = [] then (Inl (Error noConfigMessage), s2)
               else
                 (case callImport h path s2 of
                    (Inl err, s3) \<Rightarrow> (Inl err, s3)
                  | (Inr module, s3) \<Rightarrow>
                      let config = moduleDefault module
                      in if \<not> truthy (optionalMember config ''projectPrefix'') \<or>
                            \<not> truthy (optionalMember config ''services'')
                         then (Inl (Error (invalidConfigMessage path)), s3)
                         else
                           let (env, s4) = callCreateDevEnvironment h config s3
                           in (Inr env, s4\<lparr>cachedEnv := Some env\<rparr>)))"

definition getDevEnv :: "'env state \<Rightarrow> (error + 'env) \<times> 'env state" where
  "getDevEnv s =
     (case cachedEnv s of
        None \<Rightarrow> (Inl (Error notLoadedMessage), s)
      | Some env \<Rightarrow> (Inr env, s))"

definition clearDevEnvCache :: "'env state \<Rightarrow> unit \<times> 'env state" where
  "clearDevEnvCache s = ((), s\<lparr>cachedEnv := None\<rparr>)"

text \<open>The state of a process that has just loaded the module.\<close>

definition initialState :: "'env state" where
  "initialState = \<lparr>cachedEnv = None, hostCalls = []\<rparr>"

subsection \<open>What the specification says, in its own words\<close>

text \<open>
  The parent chain of a path, taken on the string: the path, its \<open>dirname\<close>, and so
  on up to the path that is its own \<open>dirname\<close>. This is the chain the walk goes
  through; whether its members are the ancestor directories of the start depends on
  the start (see the directories further down).
\<close>

function ancestors :: "string \<Rightarrow> string list" where
  "ancestors dir = (if dirname dir = dir then [dir] else dir # ancestors (dirname dir))"
  by pat_completeness auto
termination
  by (relation "measure walkMeasure") (auto intro: dirname_decreases)

declare ancestors.simps [simp del]

text \<open>The paths tested in one directory, in priority order.\<close>

definition candidatePaths :: "string \<Rightarrow> string list" where
  "candidatePaths dir = map (join dir) CONFIG_FILES"

text \<open>
  The search along the parent chain: the first member of the chain that holds a
  recognized file, and in it the first recognized file in priority order.
\<close>

definition locateSpec :: "(string \<Rightarrow> bool) \<Rightarrow> string \<Rightarrow> string option" where
  "locateSpec ex startDir =
     (case find (\<lambda>dir. list_ex ex (candidatePaths dir)) (ancestors startDir) of
        None \<Rightarrow> None
      | Some dir \<Rightarrow> find ex (candidatePaths dir))"

text \<open>
  The tests of a walk that goes directory by directory: the paths in order, up to and
  including the first one that exists.
\<close>

fun probesUntilHit :: "(string \<Rightarrow> bool) \<Rightarrow> string list \<Rightarrow> string list" where
  "probesUntilHit ex [] = []"
| "probesUntilHit ex (p # ps) = (if ex p then [p] else p # probesUntilHit ex ps)"

definition walkProbes :: "(string \<Rightarrow> bool) \<Rightarrow> string \<Rightarrow> string list" where
  "walkProbes ex startDir = probesUntilHit ex (concat (map candidatePaths (ancestors startDir)))"

text \<open>The directory a call of \<open>loadDevEnv\<close> starts from: \<open>options?.cwd ?? process.cwd()\<close>.\<close>

definition startDirOf :: "'env host \<Rightarrow> load_options option \<Rightarrow> string" where
  "startDirOf h options = (case optionsCwd options of Some dir \<Rightarrow> dir | None \<Rightarrow> processCwd h)"

definition cwdCalls :: "load_options option \<Rightarrow> event list" where
  "cwdCalls options = (case optionsCwd options of Some dir \<Rightarrow> [] | None \<Rightarrow> [ProcessCwd])"












text \<open>
  The validity of a raw config as section 3 of the specification words it: a
  non-empty project-prefix identifier and a non-empty service-definitions mapping.
\<close>

definition nonEmptyIdentifier :: "js_value \<Rightarrow> bool" where
  "nonEmptyIdentifier v = (case v of JString name \<Rightarrow> name \<noteq> [] | _ \<Rightarrow> False)"

definition nonEmptyMapping :: "js_value \<Rightarrow> bool" where
  "nonEmptyMapping v = (case v of JObject props \<Rightarrow> props \<noteq> [] | _ \<Rightarrow> False)"

definition specValidConfig :: "js_value \<Rightarrow> bool" where
  "specValidConfig config \<longleftrightarrow>
     nonEmptyIdentifier (optionalMember config ''projectPrefix'') \<and>
     nonEmptyMapping (optionalMember config ''services'')"

subsection \<open>A project on disk\<close>

text \<open>
  Hosts to run the loader on: the files of the list exist, every one of them is a
  module whose default export is the given value, the process runs in /work/app, and
  the factory keeps the two fields the loader looks at.
\<close>

definition demoFactory :: "js_value \<Rightarrow> js_value" where
  "demoFactory config =
     JObject [(''prefix'', optionalMember config ''projectPrefix''),
              (''services'', optionalMember config ''services'')]"

definition hostWith :: "string list \<Rightarrow> js_value \<Rightarrow> js_value host" where
  "hostWith files config =
     \<lparr>existsSync = (\<lambda>path. path \<in> set files),
      processCwd = ''/work/app'',
      importModule = (\<lambda>path. if path \<in> set files then Inr [(''default'', config)]
                             else Inl (Error ''Cannot find module'')),
      createDevEnvironment = demoFactory\<rparr>"

definition demoConfig :: js_value where
  "demoConfig =
     JObject [(''projectPrefix'', JString ''demo''),
              (''services'', JObject [(''postgres'', JObject [(''port'', JNumber 5432)])])]"

definition emptyServicesConfig :: js_value where
  "emptyServicesConfig = JObject [(''projectPrefix'', JString ''demo''), (''services'', JObject [])]"

definition noServicesConfig :: js_value where
  "noServicesConfig = JObject [(''projectPrefix'', JString ''demo'')]"

definition workFiles :: "string list" where
  "workFiles = [''/work/dev.config.js'', ''/work/dev.config.ts'', ''/dev.config.ts'']"

definition loadedState :: "js_value state" where
  "loadedState = \<lparr>cachedEnv = Some (demoFactory demoConfig), hostCalls = []\<rparr>"



text \<open>A directory \<open>depth + 1\<close> levels below the root: /a, /a/a, /a/a/a and so on.\<close>

definition deepDir :: "nat \<Rightarrow> string" where
  "deepDir depth = concat (replicate (Suc depth) ''/a'')"

section \<open>Properties\<close>

subsection \<open>The path functions\<close>

lemma normalize_nonempty: "normalize path \<noteq> []"
  by (simp add: normalize_def Let_def)

lemma join_nonempty: "join a b \<noteq> []"
  by (simp add: join_def normalize_nonempty)

lemma walkMeasure_le: "walkMeasure dir \<le> Suc (length dir)"
  by (simp add: walkMeasure_def)

lemma dirname_append_segment:
  assumes "2 \<le> length p"
  shows "dirname (p @ ''/a'') = p"
proof -
  from assms obtain c cs where p: "p = c # cs"
    by (cases p) auto
  from assms p have cs: "cs \<noteq> []" by auto
  have "dirname_scan (rev (tl (p @ ''/a''))) True = Some (Suc (length cs))"
    by (simp add: p)
  moreover have "Suc (length cs) \<noteq> 1"
    using cs by simp
  ultimately show ?thesis
    by (simp add: dirname_def p)
qed

lemma deepDir_Suc: "deepDir (Suc depth) = deepDir depth @ ''/a''"
proof -
  have "concat (replicate (Suc n) x) = concat (replicate n x) @ x" for n and x :: string
    by (induction n) simp_all
  then show ?thesis
    unfolding deepDir_def .
qed

lemma length_deepDir: "length (deepDir depth) = 2 * Suc depth"
  by (induction depth) (simp_all add: deepDir_def)

lemma dirname_deepDir: "dirname (deepDir (Suc depth)) = deepDir depth"
  unfolding deepDir_Suc
  by (rule dirname_append_segment) (simp add: length_deepDir)

subsection \<open>The walk, step by step\<close>

lemma probesUntilHit_no_hit: "\<forall>p\<in>set ps. \<not> ex p \<Longrightarrow> probesUntilHit ex ps = ps"
  by (induction ps) auto

lemma probesUntilHit_append:
  "probesUntilHit ex (ps @ qs) =
     (if list_ex ex ps then probesUntilHit ex ps else ps @ probesUntilHit ex qs)"
  by (induction ps) (auto simp: list_ex_iff)

lemma find_None_list_ex: "find ex ps = None \<longleftrightarrow> \<not> list_ex ex ps"
  by (auto simp: find_None_iff list_ex_iff)

lemma checkConfigFiles_eq:
  "checkConfigFiles h dir files s =
     (find (existsSync h) (map (join dir) files),
      s\<lparr>hostCalls := hostCalls s @ map ExistsSync (probesUntilHit (existsSync h) (map (join dir) files))\<rparr>)"
proof (induction files arbitrary: s)
  case Nil
  show ?case by simp
next
  case (Cons f files)
  show ?case
  proof (cases "existsSync h (join dir f)")
    case True
    then show ?thesis by (simp add: callExistsSync_def Let_def)
  next
    case False
    then show ?thesis by (simp add: callExistsSync_def Let_def Cons.IH)
  qed
qed

lemma findConfigFile_eq:
  "findConfigFile h dir s =
     (locateSpec (existsSync h) dir,
      s\<lparr>hostCalls := hostCalls s @ map ExistsSync (walkProbes (existsSync h) dir)\<rparr>)"
proof (induction h dir s rule: findConfigFile.induct)
  case (1 h currentDir s)
  let ?ex = "existsSync h"
  let ?here = "candidatePaths currentDir"
  have check: "checkConfigFiles h currentDir CONFIG_FILES s =
      (find ?ex ?here, s\<lparr>hostCalls := hostCalls s @ map ExistsSync (probesUntilHit ?ex ?here)\<rparr>)"
    by (simp add: checkConfigFiles_eq candidatePaths_def)
  show ?case
  proof (cases "find ?ex ?here")
    case (Some path)
    then have hit: "list_ex ?ex ?here"
      using find_None_list_ex [of ?ex ?here] by simp
    have chain: "\<exists>rest. ancestors currentDir = currentDir # rest"
      by (subst ancestors.simps) simp
    then obtain rest where rest: "ancestors currentDir = currentDir # rest" ..
    have "locateSpec ?ex currentDir = Some path"
      using hit Some by (simp add: locateSpec_def rest)
    moreover have "walkProbes ?ex currentDir = probesUntilHit ?ex ?here"
      using hit by (simp add: walkProbes_def rest probesUntilHit_append)
    ultimately show ?thesis
      using Some check by (subst findConfigFile.simps) simp
  next
    case None
    then have miss: "\<not> list_ex ?ex ?here"
      using find_None_list_ex [of ?ex ?here] by simp
    then have all: "probesUntilHit ?ex ?here = ?here"
      by (simp add: probesUntilHit_no_hit list_ex_iff)
    show ?thesis
    proof (cases "dirname currentDir = currentDir")
      case True
      then have chain: "ancestors currentDir = [currentDir]"
        by (subst ancestors.simps) simp
      have "locateSpec ?ex currentDir = None"
        using miss by (simp add: locateSpec_def chain)
      moreover have "walkProbes ?ex currentDir = ?here"
        using all by (simp add: walkProbes_def chain)
      ultimately show ?thesis
        using None check all True by (subst findConfigFile.simps) simp
    next
      case False
      then have chain: "ancestors currentDir = currentDir # ancestors (dirname currentDir)"
        by (subst ancestors.simps) simp
      have spec: "locateSpec ?ex currentDir = locateSpec ?ex (dirname currentDir)"
        using miss by (simp add: locateSpec_def chain)
      have probes: "walkProbes ?ex currentDir = ?here @ walkProbes ?ex (dirname currentDir)"
        using miss by (simp add: walkProbes_def chain probesUntilHit_append)
      have step: "findConfigFile h currentDir s =
          findConfigFile h (dirname currentDir)
            (s\<lparr>hostCalls := hostCalls s @ map ExistsSync ?here\<rparr>)"
        using None check all False by (subst findConfigFile.simps) simp
      have "findConfigFile h (dirname currentDir) (s\<lparr>hostCalls := hostCalls s @ map ExistsSync ?here\<rparr>) =
          (locateSpec ?ex (dirname currentDir),
           s\<lparr>hostCalls := hostCalls s @ map ExistsSync ?here
                @ map ExistsSync (walkProbes ?ex (dirname currentDir))\<rparr>)"
        using "1.IH" [OF _ _ refl False, of None "s\<lparr>hostCalls := hostCalls s @ map ExistsSync ?here\<rparr>"]
          None check all by simp
      with step spec probes show ?thesis by simp
    qed
  qed
qed

lemma list_ex_candidatePaths:
  "list_ex ex (candidatePaths dir) \<longleftrightarrow> (\<exists>file\<in>set CONFIG_FILES. ex (join dir file))"
  by (auto simp: list_ex_iff candidatePaths_def)

lemma locateSpec_None_iff:
  "locateSpec ex startDir = None \<longleftrightarrow>
     (\<forall>dir\<in>set (ancestors startDir). \<forall>file\<in>set CONFIG_FILES. \<not> ex (join dir file))"
proof (cases "find (\<lambda>dir. list_ex ex (candidatePaths dir)) (ancestors startDir)")
  case None
  then have "locateSpec ex startDir = None"
    by (simp add: locateSpec_def)
  moreover from None have "\<forall>dir\<in>set (ancestors startDir). \<not> list_ex ex (candidatePaths dir)"
    by (simp add: find_None_iff)
  then have "\<forall>dir\<in>set (ancestors startDir). \<forall>file\<in>set CONFIG_FILES. \<not> ex (join dir file)"
    by (simp add: list_ex_candidatePaths)
  ultimately show ?thesis by simp
next
  case (Some dir)
  then have dir: "dir \<in> set (ancestors startDir)" and hit: "list_ex ex (candidatePaths dir)"
    by (auto simp: find_Some_iff)
  from hit have "find ex (candidatePaths dir) \<noteq> None"
    by (simp add: find_None_list_ex)
  with Some have "locateSpec ex startDir \<noteq> None"
    by (simp add: locateSpec_def)
  moreover from hit have "\<exists>file\<in>set CONFIG_FILES. ex (join dir file)"
    by (simp add: list_ex_candidatePaths)
  ultimately show ?thesis
    using dir by blast
qed

lemma locateSpec_Some:
  assumes "locateSpec ex startDir = Some path"
  shows "ex path \<and> path \<noteq> [] \<and>
         (\<exists>dir\<in>set (ancestors startDir). \<exists>file\<in>set CONFIG_FILES. path = join dir file)"
proof -
  from assms obtain dir
    where dir: "find (\<lambda>dir. list_ex ex (candidatePaths dir)) (ancestors startDir) = Some dir"
      and path: "find ex (candidatePaths dir) = Some path"
    by (auto simp: locateSpec_def split: option.splits)
  from dir have "dir \<in> set (ancestors startDir)"
    by (auto simp: find_Some_iff)
  moreover from path have "ex path" and "path \<in> set (candidatePaths dir)"
    by (auto simp: find_Some_iff)
  ultimately show ?thesis
    by (auto simp: candidatePaths_def join_nonempty)
qed

lemma walkProbes_nonempty: "walkProbes ex startDir \<noteq> []"
proof -
  have "\<exists>rest. ancestors startDir = startDir # rest"
    by (subst ancestors.simps) simp
  then obtain rest where "ancestors startDir = startDir # rest" ..
  then show ?thesis
    by (simp add: walkProbes_def candidatePaths_def CONFIG_FILES_def)
qed

lemma walkProbes_no_config:
  assumes "locateSpec ex startDir = None"
  shows "walkProbes ex startDir = concat (map candidatePaths (ancestors startDir))"
proof -
  from assms have "\<forall>p\<in>set (concat (map candidatePaths (ancestors startDir))). \<not> ex p"
    by (auto simp: locateSpec_None_iff candidatePaths_def)
  then show ?thesis
    by (simp add: walkProbes_def probesUntilHit_no_hit)
qed

lemma ancestors_funpow:
  "\<exists>n. n \<le> walkMeasure dir \<and>
       ancestors dir = map (\<lambda>k. (dirname ^^ k) dir) [0..<Suc n] \<and>
       dirname ((dirname ^^ n) dir) = (dirname ^^ n) dir \<and>
       (\<forall>k<n. dirname ((dirname ^^ k) dir) \<noteq> (dirname ^^ k) dir)"
proof (induction dir rule: ancestors.induct)
  case (1 dir)
  show ?case
  proof (cases "dirname dir = dir")
    case True
    then have "ancestors dir = [dir]"
      by (subst ancestors.simps) simp
    with True show ?thesis
      by (intro exI [of _ 0]) simp
  next
    case False
    from "1.IH" [OF False] obtain n
      where n: "n \<le> walkMeasure (dirname dir)"
        and chain: "ancestors (dirname dir) = map (\<lambda>k. (dirname ^^ k) (dirname dir)) [0..<Suc n]"
        and fixed: "dirname ((dirname ^^ n) (dirname dir)) = (dirname ^^ n) (dirname dir)"
        and moving: "\<forall>k<n. dirname ((dirname ^^ k) (dirname dir)) \<noteq> (dirname ^^ k) (dirname dir)"
      by blast
    have shift: "(dirname ^^ k) (dirname dir) = (dirname ^^ Suc k) dir" for k
      by (simp add: funpow_swap1)
    have "Suc n \<le> walkMeasure dir"
      using n dirname_decreases [OF False] by simp
    moreover have "ancestors dir = map (\<lambda>k. (dirname ^^ k) dir) [0..<Suc (Suc n)]"
    proof -
      have "ancestors dir = dir # ancestors (dirname dir)"
        using False by (subst ancestors.simps) simp
      also have "\<dots> = (dirname ^^ 0) dir # map (\<lambda>k. (dirname ^^ Suc k) dir) [0..<Suc n]"
        unfolding chain shift by simp
      also have "\<dots> = map (\<lambda>k. (dirname ^^ k) dir) [0..<Suc (Suc n)]"
        by (rule map_upt_Suc [symmetric])
      finally show ?thesis .
    qed
    moreover have "dirname ((dirname ^^ Suc n) dir) = (dirname ^^ Suc n) dir"
      using fixed unfolding shift .
    moreover have "\<forall>k<Suc n. dirname ((dirname ^^ k) dir) \<noteq> (dirname ^^ k) dir"
    proof (intro allI impI)
      fix k assume k: "k < Suc n"
      show "dirname ((dirname ^^ k) dir) \<noteq> (dirname ^^ k) dir"
      proof (cases k)
        case 0
        with False show ?thesis by simp
      next
        case (Suc j)
        with k moving have "dirname ((dirname ^^ j) (dirname dir)) \<noteq> (dirname ^^ j) (dirname dir)"
          by simp
        then show ?thesis unfolding shift Suc .
      qed
    qed
    ultimately show ?thesis by blast
  qed
qed

lemma ancestors_deepDir: "length (ancestors (deepDir depth)) = depth + 2"
proof (induction depth)
  case 0
  have "ancestors ''/a'' = [''/a'', ''/'']"
    by (simp add: ancestors.simps dirname_def)
  then show ?case
    by (simp add: deepDir_def)
next
  case (Suc depth)
  have "length (deepDir (Suc depth)) \<noteq> length (deepDir depth)"
    by (simp add: length_deepDir)
  then have "dirname (deepDir (Suc depth)) \<noteq> deepDir (Suc depth)"
    unfolding dirname_deepDir by auto
  then have "ancestors (deepDir (Suc depth)) = deepDir (Suc depth) # ancestors (deepDir depth)"
    by (subst ancestors.simps) (simp add: dirname_deepDir)
  with Suc.IH show ?case by simp
qed

subsection \<open>A load that does not stop at the cache\<close>

lemma loadDevEnv_cached:
  assumes "cachedEnv s = Some env" and "\<not> reloadRequested options"
  shows "loadDevEnv h options s = (Inr env, s)"
  using assms by (simp add: loadDevEnv_def)

lemma loadDevEnv_fresh:
  assumes "cachedEnv s = None \<or> reloadRequested options"
  shows "loadDevEnv h options s =
     (let s2 = s\<lparr>hostCalls := hostCalls s @ cwdCalls options @
                  map ExistsSync (walkProbes (existsSync h) (startDirOf h options))\<rparr>
      in case locateSpec (existsSync h) (startDirOf h options) of
           None \<Rightarrow> (Inl (Error noConfigMessage), s2)
         | Some path \<Rightarrow>
             let s3 = s2\<lparr>hostCalls := hostCalls s2 @ [Import path]\<rparr>
             in (case importModule h path of
                   Inl err \<Rightarrow> (Inl err, s3)
                 | Inr module \<Rightarrow>
                     if truthy (optionalMember (moduleDefault module) ''projectPrefix'') \<and>
                        truthy (optionalMember (moduleDefault module) ''services'')
                     then (Inr (createDevEnvironment h (moduleDefault module)),
                           s3\<lparr>hostCalls := hostCalls s3 @ [CreateDevEnvironment (moduleDefault module)],
                              cachedEnv := Some (createDevEnvironment h (moduleDefault module))\<rparr>)
                     else (Inl (Error (invalidConfigMessage path)), s3)))"
proof (cases "locateSpec (existsSync h) (startDirOf h options)")
  case None
  from assms show ?thesis
  proof
    assume "cachedEnv s = None"
    with None show ?thesis
      by (cases "optionsCwd options")
         (simp_all add: loadDevEnv_def findConfigFile_eq startDirOf_def cwdCalls_def
            callProcessCwd_def Let_def)
  next
    assume "reloadRequested options"
    with None show ?thesis
      by (cases "optionsCwd options")
         (simp_all add: loadDevEnv_def findConfigFile_eq startDirOf_def cwdCalls_def
            callProcessCwd_def Let_def)
  qed
next
  case (Some path)
  then have path: "path \<noteq> []"
    using locateSpec_Some by blast
  from assms show ?thesis
  proof
    assume "cachedEnv s = None"
    with Some path show ?thesis
      by (cases "optionsCwd options"; cases "importModule h path")
         (simp_all add: loadDevEnv_def findConfigFile_eq startDirOf_def cwdCalls_def
            callProcessCwd_def callImport_def callCreateDevEnvironment_def Let_def)
  next
    assume "reloadRequested options"
    with Some path show ?thesis
      by (cases "optionsCwd options"; cases "importModule h path")
         (simp_all add: loadDevEnv_def findConfigFile_eq startDirOf_def cwdCalls_def
            callProcessCwd_def callImport_def callCreateDevEnvironment_def Let_def)
  qed
qed

subsection \<open>Absolute paths and the directories they name\<close>



















subsection \<open>The walk from an absolute path, in ancestor directories\<close>












subsection \<open>The project on disk, evaluated\<close>

lemma ancestors_work_app: "ancestors ''/work/app'' = [''/work/app'', ''/work'', ''/'']"
  by (simp add: ancestors.simps dirname_def)

lemma candidatePaths_work_app:
  "candidatePaths ''/work/app'' =
     [''/work/app/dev.config.ts'', ''/work/app/dev.config.js'',
      ''/work/app/dev-tools.config.ts'', ''/work/app/dev-tools.config.js'']"
  by (simp add: candidatePaths_def CONFIG_FILES_def join_def normalize_def normalizeString_def)

lemma candidatePaths_work:
  "candidatePaths ''/work'' =
     [''/work/dev.config.ts'', ''/work/dev.config.js'',
      ''/work/dev-tools.config.ts'', ''/work/dev-tools.config.js'']"
  by (simp add: candidatePaths_def CONFIG_FILES_def join_def normalize_def normalizeString_def)

lemma candidatePaths_root:
  "candidatePaths ''/'' =
     [''/dev.config.ts'', ''/dev.config.js'', ''/dev-tools.config.ts'', ''/dev-tools.config.js'']"
  by (simp add: candidatePaths_def CONFIG_FILES_def join_def normalize_def normalizeString_def)

lemma locateSpec_workFiles:
  "locateSpec (existsSync (hostWith workFiles config)) ''/work/app'' = Some ''/work/dev.config.ts''"
  by (simp add: locateSpec_def ancestors_work_app candidatePaths_work_app candidatePaths_work
      hostWith_def workFiles_def)

lemma walkProbes_workFiles:
  "walkProbes (existsSync (hostWith workFiles config)) ''/work/app'' =
     [''/work/app/dev.config.ts'', ''/work/app/dev.config.js'',
      ''/work/app/dev-tools.config.ts'', ''/work/app/dev-tools.config.js'',
      ''/work/dev.config.ts'']"
  by (simp add: walkProbes_def ancestors_work_app candidatePaths_work_app candidatePaths_work
      hostWith_def workFiles_def)

lemma locateSpec_no_files:
  "locateSpec (existsSync (hostWith [] config)) ''/work/app'' = None"
  by (simp add: locateSpec_def ancestors_work_app candidatePaths_work_app candidatePaths_work
      candidatePaths_root hostWith_def)

lemma walkProbes_no_files:
  "walkProbes (existsSync (hostWith [] config)) ''/work/app'' =
     candidatePaths ''/work/app'' @ candidatePaths ''/work'' @ candidatePaths ''/''"
  by (simp add: walkProbes_no_config locateSpec_no_files ancestors_work_app)

lemma hostWith_simps:
  "existsSync (hostWith files config) = (\<lambda>path. path \<in> set files)"
  "processCwd (hostWith files config) = ''/work/app''"
  "importModule (hostWith files config) =
     (\<lambda>path. if path \<in> set files then Inr [(''default'', config)] else Inl (Error ''Cannot find module''))"
  "createDevEnvironment (hostWith files config) = demoFactory"
  by (simp_all add: hostWith_def)

lemma demoConfig_truthy:
  "truthy (optionalMember demoConfig ''projectPrefix'')"
  "truthy (optionalMember demoConfig ''services'')"
  by (simp_all add: demoConfig_def)

lemma emptyServicesConfig_truthy:
  "truthy (optionalMember emptyServicesConfig ''projectPrefix'')"
  "truthy (optionalMember emptyServicesConfig ''services'')"
  by (simp_all add: emptyServicesConfig_def)

lemma noServicesConfig_falsy:
  "\<not> truthy (optionalMember noServicesConfig ''services'')"
  by (simp add: noServicesConfig_def)

lemma moduleDefault_single: "moduleDefault [(''default'', config)] = config"
  by (simp add: moduleDefault_def)

lemma startDirOf_simps:
  "startDirOf h None = processCwd h"
  "startDirOf h (Some \<lparr>cwd = None, reload = r\<rparr>) = processCwd h"
  "startDirOf h (Some \<lparr>cwd = Some dir, reload = r\<rparr>) = dir"
  by (simp_all add: startDirOf_def optionsCwd_def)

lemma cwdCalls_simps:
  "cwdCalls None = [ProcessCwd]"
  "cwdCalls (Some \<lparr>cwd = None, reload = r\<rparr>) = [ProcessCwd]"
  "cwdCalls (Some \<lparr>cwd = Some dir, reload = r\<rparr>) = []"
  by (simp_all add: cwdCalls_def optionsCwd_def)

lemma reloadRequested_simps:
  "reloadRequested None = False"
  "reloadRequested (Some \<lparr>cwd = c, reload = None\<rparr>) = False"
  "reloadRequested (Some \<lparr>cwd = c, reload = Some b\<rparr>) = b"
  by (simp_all add: reloadRequested_def)

subsection \<open>What a load does to the cache\<close>

lemma loadDevEnv_Inl_cache:
  assumes "loadDevEnv h options s = (Inl err, s')"
  shows "cachedEnv s' = cachedEnv s"
proof (cases "cachedEnv s \<noteq> None \<and> \<not> reloadRequested options")
  case True
  with assms show ?thesis by (simp add: loadDevEnv_def)
next
  case False
  then have "cachedEnv s = None \<or> reloadRequested options" by auto
  from loadDevEnv_fresh [OF this, of h] assms show ?thesis
    by (auto simp: Let_def split: option.splits sum.splits if_splits)
qed

lemma loadDevEnv_Inr_cache:
  assumes "loadDevEnv h options s = (Inr env, s')"
  shows "cachedEnv s' = Some env"
proof (cases "cachedEnv s \<noteq> None \<and> \<not> reloadRequested options")
  case True
  with assms show ?thesis by (auto simp: loadDevEnv_def)
next
  case False
  then have "cachedEnv s = None \<or> reloadRequested options" by auto
  from loadDevEnv_fresh [OF this, of h] assms show ?thesis
    by (auto simp: Let_def split: option.splits sum.splits if_splits)
qed

lemma length_probesUntilHit: "length (probesUntilHit ex ps) \<le> length ps"
  by (induction ps) auto

lemma length_all_candidates: "length (concat (map candidatePaths dirs)) = 4 * length dirs"
  by (induction dirs) (auto simp: candidatePaths_def CONFIG_FILES_def)

subsection \<open>Loads of the project on disk\<close>

lemma import_workFiles:
  "importModule (hostWith workFiles config) ''/work/dev.config.ts'' = Inr [(''default'', config)]"
  by (simp add: hostWith_def workFiles_def)

lemma load_workFiles:
  "loadDevEnv (hostWith workFiles demoConfig) None initialState =
     (Inr (demoFactory demoConfig),
      \<lparr>cachedEnv = Some (demoFactory demoConfig),
       hostCalls =
         [ProcessCwd,
          ExistsSync ''/work/app/dev.config.ts'', ExistsSync ''/work/app/dev.config.js'',
          ExistsSync ''/work/app/dev-tools.config.ts'', ExistsSync ''/work/app/dev-tools.config.js'',
          ExistsSync ''/work/dev.config.ts'',
          Import ''/work/dev.config.ts'',
          CreateDevEnvironment demoConfig]\<rparr>)"
  by (simp add: loadDevEnv_fresh initialState_def startDirOf_simps cwdCalls_simps
      hostWith_simps(2,4) import_workFiles locateSpec_workFiles walkProbes_workFiles
      moduleDefault_single demoConfig_truthy Let_def)

lemma load_no_files:
  "cachedEnv s = None \<or> reloadRequested options \<Longrightarrow> startDirOf (hostWith [] config) options = ''/work/app'' \<Longrightarrow>
   loadDevEnv (hostWith [] config) options s =
     (Inl (Error noConfigMessage),
      s\<lparr>hostCalls := hostCalls s @ cwdCalls options @
          map ExistsSync (candidatePaths ''/work/app'' @ candidatePaths ''/work'' @ candidatePaths ''/'')\<rparr>)"
  by (simp add: loadDevEnv_fresh locateSpec_no_files walkProbes_no_files Let_def)

lemma load_workFiles_invalid:
  "cachedEnv s = None \<or> reloadRequested options \<Longrightarrow>
   startDirOf (hostWith workFiles noServicesConfig) options = ''/work/app'' \<Longrightarrow>
   loadDevEnv (hostWith workFiles noServicesConfig) options s =
     (Inl (Error (invalidConfigMessage ''/work/dev.config.ts'')),
      s\<lparr>hostCalls := hostCalls s @ cwdCalls options @
          [ExistsSync ''/work/app/dev.config.ts'', ExistsSync ''/work/app/dev.config.js'',
           ExistsSync ''/work/app/dev-tools.config.ts'', ExistsSync ''/work/app/dev-tools.config.js'',
           ExistsSync ''/work/dev.config.ts'',
           Import ''/work/dev.config.ts'']\<rparr>)"
  by (simp add: loadDevEnv_fresh import_workFiles locateSpec_workFiles walkProbes_workFiles
      moduleDefault_single noServicesConfig_falsy Let_def)

lemma load_workFiles_emptyServices:
  "loadDevEnv (hostWith workFiles emptyServicesConfig) None initialState =
     (Inr (demoFactory emptyServicesConfig),
      \<lparr>cachedEnv = Some (demoFactory emptyServicesConfig),
       hostCalls =
         [ProcessCwd,
          ExistsSync ''/work/app/dev.config.ts'', ExistsSync ''/work/app/dev.config.js'',
          ExistsSync ''/work/app/dev-tools.config.ts'', ExistsSync ''/work/app/dev-tools.config.js'',
          ExistsSync ''/work/dev.config.ts'',
          Import ''/work/dev.config.ts'',
          CreateDevEnvironment emptyServicesConfig]\<rparr>)"
  by (simp add: loadDevEnv_fresh initialState_def startDirOf_simps cwdCalls_simps
      hostWith_simps(2,4) import_workFiles locateSpec_workFiles walkProbes_workFiles
      moduleDefault_single emptyServicesConfig_truthy Let_def)

subsection \<open>A start that is not its own directory\<close>















section \<open>The claims\<close>

subsection \<open>The cache\<close>

text \<open>
  C10. \<open>clearDevEnvCache\<close> is total and idempotent: whatever the state, it empties the
  slot, makes no host call, returns nothing, and a second run changes nothing more.
\<close>

theorem clearDevEnvCache_idempotent:
  "cachedEnv (snd (clearDevEnvCache s)) = None \<and>
   hostCalls (snd (clearDevEnvCache s)) = hostCalls s \<and>
   clearDevEnvCache (snd (clearDevEnvCache s)) = clearDevEnvCache s \<and>
   fst (clearDevEnvCache s) = ()"
  by (simp add: clearDevEnvCache_def)

theorem clearDevEnvCache_idempotent_witness:
  "cachedEnv (snd (clearDevEnvCache loadedState)) = None \<and>
   clearDevEnvCache (snd (clearDevEnvCache loadedState)) = ((), \<lparr>cachedEnv = None, hostCalls = []\<rparr>)"
  using clearDevEnvCache_idempotent [of loadedState]
  by (simp add: clearDevEnvCache_def loadedState_def)

text \<open>
  C5. \<open>getDevEnv\<close> throws the not-loaded error exactly when the slot is empty, as it is
  in the initial state and after \<open>clearDevEnvCache\<close>; otherwise it returns the cached
  environment, which is the value the last successful \<open>loadDevEnv\<close> returned, also
  when a failing load came in between. It leaves the state as it is: the slot and
  the log of host calls.
\<close>

theorem getDevEnv_reads_cache:
  fixes s :: "'env state"
  shows
  "((\<exists>err. fst (getDevEnv s) = Inl err) \<longleftrightarrow> cachedEnv s = None) \<and>
   (cachedEnv s = None \<longrightarrow>
      fst (getDevEnv s) = Inl (Error ''Dev environment not loaded. Call loadDevEnv() first.'')) \<and>
   (\<forall>env. cachedEnv s = Some env \<longrightarrow> fst (getDevEnv s) = Inr env) \<and>
   snd (getDevEnv s) = s \<and>
   (\<exists>err. fst (getDevEnv (initialState :: 'env state)) = Inl err) \<and>
   (\<exists>err. fst (getDevEnv (snd (clearDevEnvCache s))) = Inl err) \<and>
   (\<forall>h options env s'. loadDevEnv h options s = (Inr env, s') \<longrightarrow> fst (getDevEnv s') = Inr env) \<and>
   (\<forall>h options env s' h' options' err s''.
      loadDevEnv h options s = (Inr env, s') \<and> loadDevEnv h' options' s' = (Inl err, s'') \<longrightarrow>
      fst (getDevEnv s'') = Inr env)"
proof -
  have "fst (getDevEnv s') = Inr env" if "loadDevEnv h options s = (Inr env, s')"
    for h options env and s' :: "'env state"
    using loadDevEnv_Inr_cache [OF that] by (simp add: getDevEnv_def)
  moreover have "fst (getDevEnv s'') = Inr env"
    if "loadDevEnv h options s = (Inr env, s')" and "loadDevEnv h' options' s' = (Inl err, s'')"
    for h options env h' options' err and s' s'' :: "'env state"
    using loadDevEnv_Inr_cache [OF that(1)] loadDevEnv_Inl_cache [OF that(2)]
    by (simp add: getDevEnv_def)
  moreover have "(\<exists>err. fst (getDevEnv s) = Inl err) \<longleftrightarrow> cachedEnv s = None"
    by (simp add: getDevEnv_def split: option.splits)
  moreover have "snd (getDevEnv s) = s"
    by (simp add: getDevEnv_def split: option.splits)
  moreover have "\<forall>env. cachedEnv s = Some env \<longrightarrow> fst (getDevEnv s) = Inr env"
    by (simp add: getDevEnv_def)
  moreover have "cachedEnv s = None \<longrightarrow>
      fst (getDevEnv s) = Inl (Error ''Dev environment not loaded. Call loadDevEnv() first.'')"
    by (simp add: getDevEnv_def notLoadedMessage_def)
  moreover have "\<exists>err. fst (getDevEnv (initialState :: 'env state)) = Inl err"
    by (simp add: getDevEnv_def initialState_def)
  moreover have "\<exists>err. fst (getDevEnv (snd (clearDevEnvCache s))) = Inl err"
    by (simp add: getDevEnv_def clearDevEnvCache_def)
  ultimately show ?thesis by blast
qed

theorem getDevEnv_reads_cache_witness:
  "fst (getDevEnv (initialState :: js_value state)) =
     Inl (Error ''Dev environment not loaded. Call loadDevEnv() first.'') \<and>
   fst (getDevEnv (snd (loadDevEnv (hostWith workFiles demoConfig) None initialState))) =
     fst (loadDevEnv (hostWith workFiles demoConfig) None initialState) \<and>
   fst (getDevEnv (snd (loadDevEnv (hostWith workFiles demoConfig) None initialState))) =
     Inr (demoFactory demoConfig)"
proof -
  note inst = getDevEnv_reads_cache [of "initialState :: js_value state"]
  note not_loaded = inst [THEN conjunct2, THEN conjunct1, rule_format]
  note after_load =
    inst [THEN conjunct2, THEN conjunct2, THEN conjunct2, THEN conjunct2, THEN conjunct2,
          THEN conjunct2, THEN conjunct1, rule_format]
  have empty: "cachedEnv (initialState :: js_value state) = None"
    by (simp add: initialState_def)
  show ?thesis
    using not_loaded [OF empty] after_load [OF load_workFiles]
    by (simp add: load_workFiles)
qed

text \<open>
  C1. With a non-empty slot and no reload requested, \<open>loadDevEnv\<close> returns the cached
  environment and leaves the state as it is, the log of host calls included: no
  filesystem test, no import, no validation, no call of the factory. With reload
  requested the slot is not looked at: the result is the one an empty slot gives,
  the walk runs (its tests are in the log, at least one of them), and the import of
  the path the walk returns follows the tests.
\<close>

theorem loadDevEnv_cache_and_reload:
  "(cachedEnv s = Some env \<and> \<not> reloadRequested options \<longrightarrow>
      loadDevEnv h options s = (Inr env, s)) \<and>
   (reloadRequested options \<longrightarrow>
      fst (loadDevEnv h options s) = fst (loadDevEnv h options (s\<lparr>cachedEnv := None\<rparr>)) \<and>
      walkProbes (existsSync h) (startDirOf h options) \<noteq> [] \<and>
      (\<exists>rest. hostCalls (snd (loadDevEnv h options s)) =
           hostCalls s @ cwdCalls options @
           map ExistsSync (walkProbes (existsSync h) (startDirOf h options)) @ rest \<and>
         (\<forall>path. fst (findConfigFile h (startDirOf h options) s) = Some path \<longrightarrow>
            take 1 rest = [Import path])))"
proof (intro conjI impI)
  assume "cachedEnv s = Some env \<and> \<not> reloadRequested options"
  then show "loadDevEnv h options s = (Inr env, s)"
    by (simp add: loadDevEnv_cached)
next
  assume reload: "reloadRequested options"
  show "fst (loadDevEnv h options s) = fst (loadDevEnv h options (s\<lparr>cachedEnv := None\<rparr>))"
    using reload
    by (simp add: loadDevEnv_fresh Let_def split: option.splits sum.splits)
next
  assume "reloadRequested options"
  show "walkProbes (existsSync h) (startDirOf h options) \<noteq> []"
    by (rule walkProbes_nonempty)
next
  assume reload: "reloadRequested options"
  let ?walk = "map ExistsSync (walkProbes (existsSync h) (startDirOf h options))"
  show "\<exists>rest. hostCalls (snd (loadDevEnv h options s)) = hostCalls s @ cwdCalls options @ ?walk @ rest \<and>
      (\<forall>path. fst (findConfigFile h (startDirOf h options) s) = Some path \<longrightarrow> take 1 rest = [Import path])"
  proof (cases "locateSpec (existsSync h) (startDirOf h options)")
    case None
    with reload show ?thesis
      by (intro exI [of _ "[]"]) (simp add: loadDevEnv_fresh findConfigFile_eq Let_def)
  next
    case (Some path)
    show ?thesis
    proof (cases "importModule h path")
      case (Inl err)
      with reload Some show ?thesis
        by (intro exI [of _ "[Import path]"]) (simp add: loadDevEnv_fresh findConfigFile_eq Let_def)
    next
      case (Inr module)
      show ?thesis
      proof (cases "truthy (optionalMember (moduleDefault module) ''projectPrefix'') \<and>
                    truthy (optionalMember (moduleDefault module) ''services'')")
        case True
        with reload Some Inr show ?thesis
          by (intro exI [of _ "[Import path, CreateDevEnvironment (moduleDefault module)]"])
             (simp add: loadDevEnv_fresh findConfigFile_eq Let_def)
      next
        case False
        with reload Some Inr show ?thesis
          by (intro exI [of _ "[Import path]"]) (auto simp: loadDevEnv_fresh findConfigFile_eq Let_def)
      qed
    qed
  qed
qed

theorem loadDevEnv_cache_and_reload_witness:
  "loadDevEnv (hostWith [] demoConfig) (Some \<lparr>cwd = Some ''/nowhere'', reload = Some False\<rparr>) loadedState =
     (Inr (demoFactory demoConfig), loadedState) \<and>
   (\<exists>rest. hostCalls (snd (loadDevEnv (hostWith workFiles demoConfig)
                             (Some \<lparr>cwd = None, reload = Some True\<rparr>) loadedState)) =
      [ProcessCwd,
       ExistsSync ''/work/app/dev.config.ts'', ExistsSync ''/work/app/dev.config.js'',
       ExistsSync ''/work/app/dev-tools.config.ts'', ExistsSync ''/work/app/dev-tools.config.js'',
       ExistsSync ''/work/dev.config.ts''] @ rest \<and>
      take 1 rest = [Import ''/work/dev.config.ts''])"
proof -
  have cached: "cachedEnv loadedState = Some (demoFactory demoConfig)"
    by (simp add: loadedState_def)
  have found: "fst (findConfigFile (hostWith workFiles demoConfig) ''/work/app'' loadedState) =
      Some ''/work/dev.config.ts''"
    by (simp add: findConfigFile_eq locateSpec_workFiles)
  from loadDevEnv_cache_and_reload
    [of loadedState "demoFactory demoConfig" "Some \<lparr>cwd = Some ''/nowhere'', reload = Some False\<rparr>"
        "hostWith [] demoConfig"]
    cached
  have first: "loadDevEnv (hostWith [] demoConfig) (Some \<lparr>cwd = Some ''/nowhere'', reload = Some False\<rparr>)
      loadedState = (Inr (demoFactory demoConfig), loadedState)"
    by (simp add: reloadRequested_simps)
  from loadDevEnv_cache_and_reload
    [of loadedState "demoFactory demoConfig" "Some \<lparr>cwd = None, reload = Some True\<rparr>"
        "hostWith workFiles demoConfig"]
    found
  have "\<exists>rest. hostCalls (snd (loadDevEnv (hostWith workFiles demoConfig)
                             (Some \<lparr>cwd = None, reload = Some True\<rparr>) loadedState)) =
      [ProcessCwd,
       ExistsSync ''/work/app/dev.config.ts'', ExistsSync ''/work/app/dev.config.js'',
       ExistsSync ''/work/app/dev-tools.config.ts'', ExistsSync ''/work/app/dev-tools.config.js'',
       ExistsSync ''/work/dev.config.ts''] @ rest \<and>
      take 1 rest = [Import ''/work/dev.config.ts'']"
    by (simp add: reloadRequested_simps startDirOf_simps cwdCalls_simps hostWith_simps(2)
        walkProbes_workFiles loadedState_def)
  with first show ?thesis by blast
qed

text \<open>
  C9. With a non-empty slot and no reload requested, the \<open>cwd\<close> option is never read:
  whatever directory is passed, on whatever host, \<open>loadDevEnv\<close> returns the cached
  environment, tests no file, and leaves the state as it is. So two calls that
  differ in \<open>cwd\<close> only give the same result.
\<close>

theorem loadDevEnv_cwd_ignored_when_cached:
  assumes "cachedEnv s = Some env"
      and "\<not> reloadRequested (Some \<lparr>cwd = Some dir, reload = r\<rparr>)"
  shows "loadDevEnv h (Some \<lparr>cwd = Some dir, reload = r\<rparr>) s = (Inr env, s) \<and>
         loadDevEnv h' (Some \<lparr>cwd = Some dir', reload = r\<rparr>) s =
           loadDevEnv h (Some \<lparr>cwd = Some dir, reload = r\<rparr>) s"
proof -
  from assms(2) have "\<not> reloadRequested (Some \<lparr>cwd = Some dir', reload = r\<rparr>)"
    by (simp add: reloadRequested_def)
  with assms show ?thesis
    by (simp add: loadDevEnv_cached)
qed

theorem loadDevEnv_cwd_ignored_when_cached_witness:
  "cachedEnv (snd (loadDevEnv (hostWith workFiles demoConfig) None initialState)) =
     Some (demoFactory demoConfig) \<and>
   fst (loadDevEnv (hostWith [] noServicesConfig) (Some \<lparr>cwd = Some ''/elsewhere'', reload = None\<rparr>)
          (snd (loadDevEnv (hostWith workFiles demoConfig) None initialState))) =
     Inr (demoFactory demoConfig) \<and>
   snd (loadDevEnv (hostWith [] noServicesConfig) (Some \<lparr>cwd = Some ''/elsewhere'', reload = None\<rparr>)
          (snd (loadDevEnv (hostWith workFiles demoConfig) None initialState))) =
     snd (loadDevEnv (hostWith workFiles demoConfig) None initialState)"
proof -
  let ?s = "snd (loadDevEnv (hostWith workFiles demoConfig) None initialState)"
  have cached: "cachedEnv ?s = Some (demoFactory demoConfig)"
    by (simp add: load_workFiles)
  have quiet: "\<not> reloadRequested (Some \<lparr>cwd = Some ''/elsewhere'', reload = None\<rparr>)"
    by (simp add: reloadRequested_simps)
  from loadDevEnv_cwd_ignored_when_cached [OF cached quiet, of "hostWith [] noServicesConfig"] cached
  show ?thesis by simp
qed

text \<open>
  C4. A call of \<open>loadDevEnv\<close> that fails, with whatever error and also when reload is
  requested, leaves the slot as it found it; a call that succeeds leaves the
  returned environment in the slot.
\<close>

theorem loadDevEnv_failure_keeps_cache:
  "(loadDevEnv h options s = (Inl err, s') \<longrightarrow> cachedEnv s' = cachedEnv s) \<and>
   (loadDevEnv h options s = (Inr env, s'') \<longrightarrow> cachedEnv s'' = Some env)"
  using loadDevEnv_Inl_cache [of h options s err s'] loadDevEnv_Inr_cache [of h options s env s'']
  by simp

theorem loadDevEnv_failure_keeps_cache_witness:
  "fst (loadDevEnv (hostWith workFiles noServicesConfig) (Some \<lparr>cwd = None, reload = Some True\<rparr>) loadedState) =
     Inl (Error (invalidConfigMessage ''/work/dev.config.ts'')) \<and>
   cachedEnv (snd (loadDevEnv (hostWith workFiles noServicesConfig)
                     (Some \<lparr>cwd = None, reload = Some True\<rparr>) loadedState)) =
     Some (demoFactory demoConfig) \<and>
   fst (loadDevEnv (hostWith [] demoConfig) (Some \<lparr>cwd = None, reload = Some True\<rparr>) loadedState) =
     Inl (Error noConfigMessage) \<and>
   cachedEnv (snd (loadDevEnv (hostWith [] demoConfig)
                     (Some \<lparr>cwd = None, reload = Some True\<rparr>) loadedState)) =
     Some (demoFactory demoConfig)"
proof -
  let ?reload = "Some \<lparr>cwd = None, reload = Some True\<rparr>"
  have invalid_fst: "fst (loadDevEnv (hostWith workFiles noServicesConfig) ?reload loadedState) =
      Inl (Error (invalidConfigMessage ''/work/dev.config.ts''))"
    by (simp add: load_workFiles_invalid reloadRequested_simps startDirOf_simps hostWith_simps(2))
  then have invalid: "loadDevEnv (hostWith workFiles noServicesConfig) ?reload loadedState =
      (Inl (Error (invalidConfigMessage ''/work/dev.config.ts'')),
       snd (loadDevEnv (hostWith workFiles noServicesConfig) ?reload loadedState))"
    by (simp add: prod_eq_iff)
  have missing_fst: "fst (loadDevEnv (hostWith [] demoConfig) ?reload loadedState) =
      Inl (Error noConfigMessage)"
    by (simp add: load_no_files reloadRequested_simps startDirOf_simps hostWith_simps(2))
  then have missing: "loadDevEnv (hostWith [] demoConfig) ?reload loadedState =
      (Inl (Error noConfigMessage), snd (loadDevEnv (hostWith [] demoConfig) ?reload loadedState))"
    by (simp add: prod_eq_iff)
  have cached: "cachedEnv loadedState = Some (demoFactory demoConfig)"
    by (simp add: loadedState_def)
  from loadDevEnv_failure_keeps_cache [THEN conjunct1, rule_format, OF invalid]
       loadDevEnv_failure_keeps_cache [THEN conjunct1, rule_format, OF missing]
  show ?thesis
    using invalid_fst missing_fst cached by simp
qed

subsection \<open>Validation of the loaded module\<close>

text \<open>
  C3, as the claim states it, fails: a default export with a project prefix and an
  empty services mapping is not valid in the words of the specification, and the
  loader accepts it, hands it to the factory and caches the result.
\<close>

theorem loadDevEnv_accepts_empty_services:
  "\<not> specValidConfig emptyServicesConfig \<and>
   optionalMember emptyServicesConfig ''services'' = JObject [] \<and>
   fst (loadDevEnv (hostWith workFiles emptyServicesConfig) None initialState) =
     Inr (demoFactory emptyServicesConfig) \<and>
   cachedEnv (snd (loadDevEnv (hostWith workFiles emptyServicesConfig) None initialState)) =
     Some (demoFactory emptyServicesConfig)"
  by (simp add: load_workFiles_emptyServices)
     (simp add: specValidConfig_def nonEmptyMapping_def emptyServicesConfig_def)

text \<open>
  C3, amended. In a load that resolves a config file and imports it, the default
  export is accepted exactly when its \<open>projectPrefix\<close> and its \<open>services\<close> are truthy
  (every object is truthy, an empty mapping too): then the result is what the factory
  makes of it. In every other case (no default export, a default export that is null
  or a primitive, a missing or falsy \<open>projectPrefix\<close>, a missing or falsy \<open>services\<close>)
  the load fails with the invalid-config error, whose message quotes the path of the
  file.
\<close>

theorem loadDevEnv_validation:
  assumes "cachedEnv s = None \<or> reloadRequested options"
      and "fst (findConfigFile h (startDirOf h options) s) = Some path"
      and "importModule h path = Inr module"
  shows "fst (loadDevEnv h options s) =
           (if truthy (optionalMember (moduleDefault module) ''projectPrefix'') \<and>
               truthy (optionalMember (moduleDefault module) ''services'')
            then Inr (createDevEnvironment h (moduleDefault module))
            else Inl (Error (''Invalid config in \"'' @ path @
                             ''\". Use defineDevConfig() and export as default.''))) \<and>
         truthy (JObject [])"
proof -
  from assms(2) have "locateSpec (existsSync h) (startDirOf h options) = Some path"
    by (simp add: findConfigFile_eq)
  with assms(3) show ?thesis
    by (simp add: loadDevEnv_fresh [OF assms(1)] invalidConfigMessage_def Let_def)
qed

theorem loadDevEnv_validation_witness:
  "fst (loadDevEnv (hostWith workFiles noServicesConfig) None initialState) =
     Inl (Error ''Invalid config in \"/work/dev.config.ts\". Use defineDevConfig() and export as default.'') \<and>
   fst (loadDevEnv (hostWith workFiles demoConfig) None initialState) = Inr (demoFactory demoConfig)"
proof -
  have empty: "cachedEnv (initialState :: js_value state) = None \<or> reloadRequested None"
    by (simp add: initialState_def)
  have found: "fst (findConfigFile (hostWith workFiles config) (startDirOf (hostWith workFiles config) None)
      initialState) = Some ''/work/dev.config.ts''" for config
    by (simp add: findConfigFile_eq startDirOf_simps hostWith_simps(2) locateSpec_workFiles)
  from loadDevEnv_validation [OF empty found import_workFiles, of noServicesConfig]
       loadDevEnv_validation [OF empty found import_workFiles, of demoConfig]
  show ?thesis
    by (simp add: moduleDefault_single noServicesConfig_falsy demoConfig_truthy hostWith_simps(4))
qed

subsection \<open>The locator\<close>







text \<open>
  C7. The walk ends for every starting directory. The parent chain reaches a
  directory that is its own parent after at most \<open>length startDir + 1\<close> steps, and
  not before; the chain up to there is the ancestor chain the walk visits. The walk
  makes at most four filesystem tests per directory of the chain and nothing cuts it
  short: when it returns null it has tested every candidate of every directory of
  the chain, the last one included, so the comparison of the parent with the
  current directory is its only exit without a match. There is no bound on the depth:
  for every number there is a starting directory with a longer chain.
\<close>

theorem findConfigFile_walk_terminates:
  "\<exists>n. n \<le> Suc (length startDir) \<and>
       dirname ((dirname ^^ n) startDir) = (dirname ^^ n) startDir \<and>
       (\<forall>k<n. dirname ((dirname ^^ k) startDir) \<noteq> (dirname ^^ k) startDir) \<and>
       ancestors startDir = map (\<lambda>k. (dirname ^^ k) startDir) [0..<Suc n] \<and>
       (\<exists>calls. snd (findConfigFile h startDir s) = s\<lparr>hostCalls := hostCalls s @ map ExistsSync calls\<rparr> \<and>
                length calls \<le> 4 * Suc n \<and>
                (fst (findConfigFile h startDir s) = None \<longrightarrow>
                   calls = concat (map (\<lambda>k. candidatePaths ((dirname ^^ k) startDir)) [0..<Suc n]))) \<and>
       (\<forall>depth. \<exists>dir. depth < length (ancestors dir))"
proof -
  from ancestors_funpow [of startDir] obtain n
    where n: "n \<le> walkMeasure startDir"
      and chain: "ancestors startDir = map (\<lambda>k. (dirname ^^ k) startDir) [0..<Suc n]"
      and fixed: "dirname ((dirname ^^ n) startDir) = (dirname ^^ n) startDir"
      and moving: "\<forall>k<n. dirname ((dirname ^^ k) startDir) \<noteq> (dirname ^^ k) startDir"
    by blast
  let ?calls = "walkProbes (existsSync h) startDir"
  have bound: "n \<le> Suc (length startDir)"
    using n walkMeasure_le [of startDir] by simp
  have state: "snd (findConfigFile h startDir s) = s\<lparr>hostCalls := hostCalls s @ map ExistsSync ?calls\<rparr>"
    by (simp add: findConfigFile_eq)
  have "length ?calls \<le> length (concat (map candidatePaths (ancestors startDir)))"
    unfolding walkProbes_def by (rule length_probesUntilHit)
  also have "\<dots> = 4 * length (ancestors startDir)"
    by (rule length_all_candidates)
  also have "\<dots> = 4 * Suc n"
    unfolding chain by simp
  finally have count: "length ?calls \<le> 4 * Suc n" .
  have whole: "?calls = concat (map (\<lambda>k. candidatePaths ((dirname ^^ k) startDir)) [0..<Suc n])"
    if "fst (findConfigFile h startDir s) = None"
  proof -
    from that have "locateSpec (existsSync h) startDir = None"
      by (simp add: findConfigFile_eq)
    then have "?calls = concat (map candidatePaths (ancestors startDir))"
      by (rule walkProbes_no_config)
    also have "\<dots> = concat (map (\<lambda>k. candidatePaths ((dirname ^^ k) startDir)) [0..<Suc n])"
      unfolding chain by (simp add: comp_def)
    finally show ?thesis .
  qed
  show ?thesis
  proof (intro exI [of _ n] conjI)
    show "n \<le> Suc (length startDir)" by (rule bound)
    show "dirname ((dirname ^^ n) startDir) = (dirname ^^ n) startDir" by (rule fixed)
    show "\<forall>k<n. dirname ((dirname ^^ k) startDir) \<noteq> (dirname ^^ k) startDir" by (rule moving)
    show "ancestors startDir = map (\<lambda>k. (dirname ^^ k) startDir) [0..<Suc n]" by (rule chain)
    show "\<exists>calls. snd (findConfigFile h startDir s) = s\<lparr>hostCalls := hostCalls s @ map ExistsSync calls\<rparr> \<and>
          length calls \<le> 4 * Suc n \<and>
          (fst (findConfigFile h startDir s) = None \<longrightarrow>
             calls = concat (map (\<lambda>k. candidatePaths ((dirname ^^ k) startDir)) [0..<Suc n]))"
    proof (intro exI [of _ ?calls] conjI impI)
      show "snd (findConfigFile h startDir s) = s\<lparr>hostCalls := hostCalls s @ map ExistsSync ?calls\<rparr>"
        by (rule state)
      show "length ?calls \<le> 4 * Suc n" by (rule count)
      show "?calls = concat (map (\<lambda>k. candidatePaths ((dirname ^^ k) startDir)) [0..<Suc n])"
        if "fst (findConfigFile h startDir s) = None"
        using that by (rule whole)
    qed
    show "\<forall>depth. \<exists>dir. depth < length (ancestors dir)"
    proof
      fix depth
      have "depth < length (ancestors (deepDir depth))"
        by (simp add: ancestors_deepDir)
      then show "\<exists>dir. depth < length (ancestors dir)" ..
    qed
  qed
qed

theorem findConfigFile_walk_terminates_witness:
  "\<exists>n calls. n \<le> Suc (length ''/work/app'') \<and>
     dirname ((dirname ^^ n) ''/work/app'') = (dirname ^^ n) ''/work/app'' \<and>
     ancestors ''/work/app'' = map (\<lambda>k. (dirname ^^ k) ''/work/app'') [0..<Suc n] \<and>
     snd (findConfigFile (hostWith [] demoConfig) ''/work/app'' initialState) =
       \<lparr>cachedEnv = None, hostCalls = map ExistsSync calls\<rparr> \<and>
     length calls \<le> 4 * Suc n \<and>
     calls = concat (map (\<lambda>k. candidatePaths ((dirname ^^ k) ''/work/app'')) [0..<Suc n])"
proof -
  let ?h = "hostWith [] demoConfig"
  let ?s = "initialState :: js_value state"
  have null: "fst (findConfigFile ?h ''/work/app'' ?s) = None"
    by (simp add: findConfigFile_eq locateSpec_no_files)
  from findConfigFile_walk_terminates [of "''/work/app''" ?h ?s] obtain n calls
    where n: "n \<le> Suc (length ''/work/app'')"
      and fixed: "dirname ((dirname ^^ n) ''/work/app'') = (dirname ^^ n) ''/work/app''"
      and chain: "ancestors ''/work/app'' = map (\<lambda>k. (dirname ^^ k) ''/work/app'') [0..<Suc n]"
      and state: "snd (findConfigFile ?h ''/work/app'' ?s) = ?s\<lparr>hostCalls := hostCalls ?s @ map ExistsSync calls\<rparr>"
      and count: "length calls \<le> 4 * Suc n"
      and whole: "fst (findConfigFile ?h ''/work/app'' ?s) = None \<longrightarrow>
             calls = concat (map (\<lambda>k. candidatePaths ((dirname ^^ k) ''/work/app'')) [0..<Suc n])"
    by (elim exE conjE)
  from state have state': "snd (findConfigFile ?h ''/work/app'' ?s) =
      \<lparr>cachedEnv = None, hostCalls = map ExistsSync calls\<rparr>"
    by (simp add: initialState_def)
  from whole null
  have calls: "calls = concat (map (\<lambda>k. candidatePaths ((dirname ^^ k) ''/work/app'')) [0..<Suc n])"
    by (rule mp)
  show ?thesis
    using n fixed chain state' count calls
    by (intro exI [of _ n] exI [of _ calls] conjI)
qed

text \<open>
  C8. \<open>findConfigFile\<close> has no failing outcome: for every host, starting directory
  and state it returns a value, null or a path, and touches nothing but the log of
  its filesystem tests. Null is the answer exactly when no recognized file exists on
  the ancestor chain; a returned path exists, is a candidate of a directory of the
  chain, and is not the empty string, so the truthiness test of \<open>loadDevEnv\<close> tells
  null from a path. Turning null into an error is left to \<open>loadDevEnv\<close>.
\<close>

theorem findConfigFile_absence_is_null:
  "(fst (findConfigFile h startDir s) = None \<longleftrightarrow>
      (\<forall>dir\<in>set (ancestors startDir). \<forall>file\<in>set CONFIG_FILES. \<not> existsSync h (join dir file))) \<and>
   (\<forall>path. fst (findConfigFile h startDir s) = Some path \<longrightarrow>
      existsSync h path \<and> path \<noteq> [] \<and>
      (\<exists>dir\<in>set (ancestors startDir). \<exists>file\<in>set CONFIG_FILES. path = join dir file)) \<and>
   cachedEnv (snd (findConfigFile h startDir s)) = cachedEnv s \<and>
   (fst (findConfigFile h startDir s) = None \<and> cachedEnv s = None \<longrightarrow>
      fst (loadDevEnv h (Some \<lparr>cwd = Some startDir, reload = None\<rparr>) s) = Inl (Error noConfigMessage))"
proof (intro conjI allI impI)
  show "fst (findConfigFile h startDir s) = None \<longleftrightarrow>
      (\<forall>dir\<in>set (ancestors startDir). \<forall>file\<in>set CONFIG_FILES. \<not> existsSync h (join dir file))"
    by (simp add: findConfigFile_eq locateSpec_None_iff)
  show "cachedEnv (snd (findConfigFile h startDir s)) = cachedEnv s"
    by (simp add: findConfigFile_eq)
next
  fix path
  assume "fst (findConfigFile h startDir s) = Some path"
  then have found: "locateSpec (existsSync h) startDir = Some path"
    by (simp add: findConfigFile_eq)
  from locateSpec_Some [OF found]
  show "existsSync h path" and "path \<noteq> []"
    and "\<exists>dir\<in>set (ancestors startDir). \<exists>file\<in>set CONFIG_FILES. path = join dir file"
    by simp_all
next
  assume "fst (findConfigFile h startDir s) = None \<and> cachedEnv s = None"
  then have "locateSpec (existsSync h) startDir = None" and empty: "cachedEnv s = None \<or> reloadRequested (Some \<lparr>cwd = Some startDir, reload = None\<rparr>)"
    by (simp_all add: findConfigFile_eq)
  then show "fst (loadDevEnv h (Some \<lparr>cwd = Some startDir, reload = None\<rparr>) s) = Inl (Error noConfigMessage)"
    by (simp add: loadDevEnv_fresh [OF empty] startDirOf_simps Let_def)
qed

theorem findConfigFile_absence_is_null_witness:
  "fst (findConfigFile (hostWith [] demoConfig) ''/work/app'' initialState) = None \<and>
   fst (loadDevEnv (hostWith [] demoConfig) (Some \<lparr>cwd = Some ''/work/app'', reload = None\<rparr>) initialState) =
     Inl (Error noConfigMessage) \<and>
   fst (findConfigFile (hostWith workFiles demoConfig) ''/work/app'' initialState) = Some ''/work/dev.config.ts'' \<and>
   existsSync (hostWith workFiles demoConfig) ''/work/dev.config.ts''"
proof -
  let ?s = "initialState :: js_value state"
  have null: "fst (findConfigFile (hostWith [] demoConfig) ''/work/app'' ?s) = None"
    by (simp add: findConfigFile_eq locateSpec_no_files)
  have empty: "cachedEnv ?s = None"
    by (simp add: initialState_def)
  have found: "fst (findConfigFile (hostWith workFiles demoConfig) ''/work/app'' ?s) = Some ''/work/dev.config.ts''"
    by (simp add: findConfigFile_eq locateSpec_workFiles)
  note absent = findConfigFile_absence_is_null [of "hostWith [] demoConfig" "''/work/app''" ?s]
  note present = findConfigFile_absence_is_null [of "hostWith workFiles demoConfig" "''/work/app''" ?s]
  from absent [THEN conjunct2, THEN conjunct2, THEN conjunct2] null empty
  have "fst (loadDevEnv (hostWith [] demoConfig) (Some \<lparr>cwd = Some ''/work/app'', reload = None\<rparr>) ?s) =
      Inl (Error noConfigMessage)"
    by simp
  moreover from present [THEN conjunct2, THEN conjunct1, rule_format, OF found]
  have "existsSync (hostWith workFiles demoConfig) ''/work/dev.config.ts''"
    by simp
  ultimately show ?thesis
    using null found by simp
qed

end
